theory Spec2Isabelle
  imports Main "HOL-Library.Word"
begin

section \<open>Errors and records shared by the packages\<close>

text \<open>
  Go's \<^verbatim>\<open>error\<close> is an open interface. The values the repository and its
  specification name are constructors; \<open>Err msg\<close> stands for \<^verbatim>\<open>errors.New(msg)\<close>
  and for every other error value a collaborator may return.
  \<open>ErrDeviceNotFound\<close> and \<open>ErrDeviceNotConnected\<close> are the two variables of package
  \<^verbatim>\<open>app\<close>; \<open>ErrServerClosed\<close> is \<^verbatim>\<open>http.ErrServerClosed\<close>; the others are the
  taxonomy of section 7 of the specification.
\<close>

datatype error =
    ErrDeviceNotFound
  | ErrDeviceNotConnected
  | ErrServerClosed
  | ErrMissingAuth
  | ErrMalformedAuth
  | ErrForbidden
  | ErrNotFound
  | ErrStore
  | ErrBusUnavailable
  | ErrMalformedFrame
  | ErrKeepaliveTimeout
  | ErrUpgradeFailed
  | ErrInternal
  | Err string

text \<open>
  Modelled from the spec: package \<^verbatim>\<open>model\<close> (the declarations of Device and Session
  and the status constants) is not among the sources. The fields are those of section 3;
  the time stamps are left out, no claim reads them.
\<close>

record Device =
  Device_ID :: string
  Device_Status :: string

record Session =
  Session_ID :: string
  Session_TenantID :: string
  Session_UserID :: string
  Session_DeviceID :: string
  Session_Status :: string

definition DeviceStatusConnected :: string where
  "DeviceStatusConnected = ''connected''"

definition DeviceStatusDisconnected :: string where
  "DeviceStatusDisconnected = ''disconnected''"

definition SessionStatusActive :: string where
  "SessionStatusActive = ''active''"

definition SessionStatusClosed :: string where
  "SessionStatusClosed = ''closed''"

section \<open>The store interface consumed by the application\<close>

text \<open>
  \<^verbatim>\<open>store.DataStore\<close> is an interface; the application only calls it. It is a
  parameter here: a record of functions over a store state \<open>'s\<close>. A Go method that
  returns \<^verbatim>\<open>(*T, error)\<close> returns a pair of options, since both components may be
  nil independently.
\<close>

record 's DataStore =
  GetDevice :: "'s \<Rightarrow> string \<Rightarrow> string \<Rightarrow> Device option \<times> error option"
  UpsertSession :: "'s \<Rightarrow> string \<Rightarrow> string \<Rightarrow> string \<Rightarrow> 's \<times> Session option \<times> error option"
  UpdateSessionStatus :: "'s \<Rightarrow> string \<Rightarrow> string \<Rightarrow> string \<Rightarrow> 's \<times> error option"

text \<open>The calls a method of the application makes on the store, in order.\<close>

datatype store_call =
    CallGetDevice string string
  | CallUpsertSession string string string
  | CallUpdateSessionStatus string string string

record 's prepared =
  store_calls :: "store_call list"
  store_after :: 's
  session :: "Session option"
  failure :: "error option"

text \<open>
  \<^verbatim>\<open>func (a *DeviceConnectApp) PrepareUserSession(ctx, tenantID, userID, deviceID)\<close>:
  look the device up; a lookup error is returned as it is; a nil device is
  \<open>ErrDeviceNotFound\<close>; a device whose status is not \<open>connected\<close> is
  \<open>ErrDeviceNotConnected\<close>; otherwise the session is upserted for \<^verbatim>\<open>device.ID\<close>.
\<close>

definition PrepareUserSession ::
  "'s DataStore \<Rightarrow> 's \<Rightarrow> string \<Rightarrow> string \<Rightarrow> string \<Rightarrow> 's prepared" where
  "PrepareUserSession store s tenantID userID deviceID =
     (case GetDevice store s tenantID deviceID of
        (device, err) \<Rightarrow>
          if err \<noteq> None then
            \<lparr>store_calls = [CallGetDevice tenantID deviceID], store_after = s,
             session = None, failure = err\<rparr>
          else (case device of
            None \<Rightarrow>
              \<lparr>store_calls = [CallGetDevice tenantID deviceID], store_after = s,
               session = None, failure = Some ErrDeviceNotFound\<rparr>
          | Some dev \<Rightarrow>
              if Device_Status dev \<noteq> DeviceStatusConnected then
                \<lparr>store_calls = [CallGetDevice tenantID deviceID], store_after = s,
                 session = None, failure = Some ErrDeviceNotConnected\<rparr>
              else (case UpsertSession store s tenantID userID (Device_ID dev) of
                (s', sess, err') \<Rightarrow>
                  if err' \<noteq> None then
                    \<lparr>store_calls = [CallGetDevice tenantID deviceID,
                                    CallUpsertSession tenantID userID (Device_ID dev)],
                     store_after = s', session = None, failure = err'\<rparr>
                  else
                    \<lparr>store_calls = [CallGetDevice tenantID deviceID,
                                    CallUpsertSession tenantID userID (Device_ID dev)],
                     store_after = s', session = sess, failure = None\<rparr>)))"

text \<open>
  \<^verbatim>\<open>func (a *DeviceConnectApp) UpdateUserSessionStatus(ctx, tenantID, sessionID, status)\<close>
  hands the call to the store.
\<close>

definition UpdateUserSessionStatus ::
  "'s DataStore \<Rightarrow> 's \<Rightarrow> string \<Rightarrow> string \<Rightarrow> string \<Rightarrow> 's \<times> error option" where
  "UpdateUserSessionStatus store s tenantID sessionID status =
     UpdateSessionStatus store s tenantID sessionID status"

subsection \<open>A store kept in memory\<close>

text \<open>
  Modelled from the spec: the implementation of \<^verbatim>\<open>store.DataStore\<close> is not among the
  sources. This one follows the contract of section 4.3: \<open>GetDevice\<close> returns the
  record or nothing; \<open>UpsertSession\<close> assigns the next fresh session id and stores an
  active session; the status update moves a session to \<open>closed\<close>, refuses
  \<open>closed \<rightarrow> active\<close> and fails with \<open>ErrNotFound\<close> on an unknown session. The field
  \<open>broken\<close> makes every call fail with that error, for the paths where the store is
  unreachable.
\<close>

record mem_store =
  devices :: "string \<times> string \<Rightarrow> Device option"
  sessions :: "string \<times> string \<Rightarrow> Session option"
  fresh_ids :: "nat \<Rightarrow> string"
  issued :: nat
  broken :: "error option"

definition mem_GetDevice :: "mem_store \<Rightarrow> string \<Rightarrow> string \<Rightarrow> Device option \<times> error option" where
  "mem_GetDevice s tenantID deviceID =
     (case broken s of
        Some e \<Rightarrow> (None, Some e)
      | None \<Rightarrow> (devices s (tenantID, deviceID), None))"

definition mem_UpsertSession ::
  "mem_store \<Rightarrow> string \<Rightarrow> string \<Rightarrow> string \<Rightarrow> mem_store \<times> Session option \<times> error option" where
  "mem_UpsertSession s tenantID userID deviceID =
     (case broken s of
        Some e \<Rightarrow> (s, None, Some e)
      | None \<Rightarrow>
          (let sess = \<lparr>Session_ID = fresh_ids s (issued s), Session_TenantID = tenantID,
                       Session_UserID = userID, Session_DeviceID = deviceID,
                       Session_Status = SessionStatusActive\<rparr>
           in (s\<lparr>sessions := (sessions s)((tenantID, Session_ID sess) := Some sess),
                  issued := Suc (issued s)\<rparr>,
               Some sess, None)))"

definition mem_UpdateSessionStatus ::
  "mem_store \<Rightarrow> string \<Rightarrow> string \<Rightarrow> string \<Rightarrow> mem_store \<times> error option" where
  "mem_UpdateSessionStatus s tenantID sessionID status =
     (case broken s of
        Some e \<Rightarrow> (s, Some e)
      | None \<Rightarrow>
          (case sessions s (tenantID, sessionID) of
             None \<Rightarrow> (s, Some ErrNotFound)
           | Some sess \<Rightarrow>
               if Session_Status sess = SessionStatusClosed \<and> status = SessionStatusActive
               then (s, Some (Err ''session is closed''))
               else (s\<lparr>sessions := (sessions s)((tenantID, sessionID) :=
                                        Some (sess\<lparr>Session_Status := status\<rparr>))\<rparr>,
                     None)))"

definition mem_DataStore :: "mem_store DataStore" where
  "mem_DataStore =
     \<lparr>GetDevice = mem_GetDevice, UpsertSession = mem_UpsertSession,
      UpdateSessionStatus = mem_UpdateSessionStatus\<rparr>"

text \<open>A store with one connected and one disconnected device of tenant \<open>T\<close>.\<close>

definition store0 :: mem_store where
  "store0 =
     \<lparr>devices = (\<lambda>k. if k = (''T'', ''D1'') then
                         Some \<lparr>Device_ID = ''D1'', Device_Status = DeviceStatusConnected\<rparr>
                       else if k = (''T'', ''D2'') then
                         Some \<lparr>Device_ID = ''D2'', Device_Status = DeviceStatusDisconnected\<rparr>
                       else None),
      sessions = (\<lambda>k. None),
      fresh_ids = (\<lambda>n. replicate (Suc n) CHR ''S''),
      issued = 0,
      broken = None\<rparr>"

section \<open>Preparing a user session\<close>

lemma PrepareUserSession_lookup_error:
  "GetDevice store s t d = (dev, Some e) \<Longrightarrow>
   PrepareUserSession store s t u d =
     \<lparr>store_calls = [CallGetDevice t d], store_after = s, session = None, failure = Some e\<rparr>"
  by (simp add: PrepareUserSession_def)

lemma PrepareUserSession_absent:
  "GetDevice store s t d = (None, None) \<Longrightarrow>
   PrepareUserSession store s t u d =
     \<lparr>store_calls = [CallGetDevice t d], store_after = s, session = None,
      failure = Some ErrDeviceNotFound\<rparr>"
  by (simp add: PrepareUserSession_def)

lemma PrepareUserSession_not_connected:
  "GetDevice store s t d = (Some dv, None) \<Longrightarrow> Device_Status dv \<noteq> DeviceStatusConnected \<Longrightarrow>
   PrepareUserSession store s t u d =
     \<lparr>store_calls = [CallGetDevice t d], store_after = s, session = None,
      failure = Some ErrDeviceNotConnected\<rparr>"
  by (simp add: PrepareUserSession_def)

lemma PrepareUserSession_success:
  assumes "failure (PrepareUserSession store s t u d) = None"
  shows "\<exists>dv. GetDevice store s t d = (Some dv, None)
            \<and> Device_Status dv = DeviceStatusConnected
            \<and> store_calls (PrepareUserSession store s t u d) =
                [CallGetDevice t d, CallUpsertSession t u (Device_ID dv)]
            \<and> (store_after (PrepareUserSession store s t u d),
               session (PrepareUserSession store s t u d), None) =
                UpsertSession store s t u (Device_ID dv)"
proof (cases "GetDevice store s t d")
  case (Pair device err)
  with assms have e: "err = None"
    by (auto simp: PrepareUserSession_def split: if_splits)
  with assms Pair obtain dv where dv: "device = Some dv"
    by (cases device) (auto simp: PrepareUserSession_def)
  with assms Pair e have c: "Device_Status dv = DeviceStatusConnected"
    by (auto simp: PrepareUserSession_def split: if_splits)
  obtain s' sess err' where up: "UpsertSession store s t u (Device_ID dv) = (s', sess, err')"
    by (cases "UpsertSession store s t u (Device_ID dv)") auto
  with assms Pair e dv c have "err' = None"
    by (auto simp: PrepareUserSession_def split: if_splits)
  with Pair e dv c up show ?thesis
    by (simp add: PrepareUserSession_def)
qed

text \<open>
  Claim C3. \<open>PrepareUserSession\<close> creates a session only for a device that exists and is
  connected. A lookup error is returned as it is, an absent device gives
  \<open>ErrDeviceNotFound\<close>, a device whose status is not \<open>connected\<close> gives
  \<open>ErrDeviceNotConnected\<close>; in each of the three cases the only call on the store is the
  lookup (\<open>UpsertSession\<close> is not called) and the store is left as it was. When no error
  is returned, the lookup found a device whose status is \<open>connected\<close>, and the session
  is the one \<open>UpsertSession\<close> returned for that device's id.
\<close>

theorem PrepareUserSession_only_for_connected_device:
  "(GetDevice store s t d = (dev, Some e) \<longrightarrow>
      PrepareUserSession store s t u d =
        \<lparr>store_calls = [CallGetDevice t d], store_after = s, session = None, failure = Some e\<rparr>)
   \<and> (GetDevice store s t d = (None, None) \<longrightarrow>
      PrepareUserSession store s t u d =
        \<lparr>store_calls = [CallGetDevice t d], store_after = s, session = None,
         failure = Some ErrDeviceNotFound\<rparr>)
   \<and> (GetDevice store s t d = (Some dv, None) \<and> Device_Status dv \<noteq> DeviceStatusConnected \<longrightarrow>
      PrepareUserSession store s t u d =
        \<lparr>store_calls = [CallGetDevice t d], store_after = s, session = None,
         failure = Some ErrDeviceNotConnected\<rparr>)
   \<and> (failure (PrepareUserSession store s t u d) = None \<longrightarrow>
      (\<exists>dc. GetDevice store s t d = (Some dc, None)
           \<and> Device_Status dc = DeviceStatusConnected
           \<and> store_calls (PrepareUserSession store s t u d) =
               [CallGetDevice t d, CallUpsertSession t u (Device_ID dc)]
           \<and> (store_after (PrepareUserSession store s t u d),
              session (PrepareUserSession store s t u d), None) =
               UpsertSession store s t u (Device_ID dc)))"
  using PrepareUserSession_lookup_error [of store s t d dev e u]
        PrepareUserSession_absent [of store s t d u]
        PrepareUserSession_not_connected [of store s t d dv u]
        PrepareUserSession_success [of store s t u d]
  by blast

theorem PrepareUserSession_only_for_connected_device_witness:
  "GetDevice mem_DataStore (store0\<lparr>broken := Some ErrStore\<rparr>) ''T'' ''D1'' = (None, Some ErrStore)
   \<and> PrepareUserSession mem_DataStore (store0\<lparr>broken := Some ErrStore\<rparr>) ''T'' ''U1'' ''D1'' =
       \<lparr>store_calls = [CallGetDevice ''T'' ''D1''], store_after = store0\<lparr>broken := Some ErrStore\<rparr>,
        session = None, failure = Some ErrStore\<rparr>
   \<and> GetDevice mem_DataStore store0 ''T'' ''D9'' = (None, None)
   \<and> PrepareUserSession mem_DataStore store0 ''T'' ''U1'' ''D9'' =
       \<lparr>store_calls = [CallGetDevice ''T'' ''D9''], store_after = store0,
        session = None, failure = Some ErrDeviceNotFound\<rparr>
   \<and> GetDevice mem_DataStore store0 ''T'' ''D2'' =
       (Some \<lparr>Device_ID = ''D2'', Device_Status = DeviceStatusDisconnected\<rparr>, None)
   \<and> PrepareUserSession mem_DataStore store0 ''T'' ''U1'' ''D2'' =
       \<lparr>store_calls = [CallGetDevice ''T'' ''D2''], store_after = store0,
        session = None, failure = Some ErrDeviceNotConnected\<rparr>
   \<and> failure (PrepareUserSession mem_DataStore store0 ''T'' ''U1'' ''D1'') = None
   \<and> (\<exists>dc. GetDevice mem_DataStore store0 ''T'' ''D1'' = (Some dc, None)
           \<and> Device_Status dc = DeviceStatusConnected
           \<and> store_calls (PrepareUserSession mem_DataStore store0 ''T'' ''U1'' ''D1'') =
               [CallGetDevice ''T'' ''D1'', CallUpsertSession ''T'' ''U1'' (Device_ID dc)])"
proof -
  let ?down = "store0\<lparr>broken := Some ErrStore\<rparr>"
  have g1: "GetDevice mem_DataStore ?down ''T'' ''D1'' = (None, Some ErrStore)"
    by (simp add: mem_DataStore_def mem_GetDevice_def store0_def)
  have g2: "GetDevice mem_DataStore store0 ''T'' ''D9'' = (None, None)"
    by (simp add: mem_DataStore_def mem_GetDevice_def store0_def)
  have g3: "GetDevice mem_DataStore store0 ''T'' ''D2'' =
      (Some \<lparr>Device_ID = ''D2'', Device_Status = DeviceStatusDisconnected\<rparr>, None)"
    by (simp add: mem_DataStore_def mem_GetDevice_def store0_def)
  have n3: "Device_Status \<lparr>Device_ID = ''D2'', Device_Status = DeviceStatusDisconnected\<rparr>
      \<noteq> DeviceStatusConnected"
    by (simp add: DeviceStatusDisconnected_def DeviceStatusConnected_def)
  have g4: "failure (PrepareUserSession mem_DataStore store0 ''T'' ''U1'' ''D1'') = None"
    by (simp add: PrepareUserSession_def mem_DataStore_def mem_GetDevice_def
        mem_UpsertSession_def store0_def Let_def)
  note a = PrepareUserSession_only_for_connected_device
    [of mem_DataStore ?down "''T''" "''D1''" None ErrStore "''U1''"]
  note b = PrepareUserSession_only_for_connected_device
    [of mem_DataStore store0 "''T''" "''D9''" _ _ "''U1''"]
  note c = PrepareUserSession_only_for_connected_device
    [of mem_DataStore store0 "''T''" "''D2''" _ _ "''U1''"
        "\<lparr>Device_ID = ''D2'', Device_Status = DeviceStatusDisconnected\<rparr>"]
  note d = PrepareUserSession_only_for_connected_device
    [of mem_DataStore store0 "''T''" "''D1''" _ _ "''U1''"]
  from a g1 have r1: "PrepareUserSession mem_DataStore ?down ''T'' ''U1'' ''D1'' =
       \<lparr>store_calls = [CallGetDevice ''T'' ''D1''], store_after = ?down,
        session = None, failure = Some ErrStore\<rparr>"
    by blast
  from b g2 have r2: "PrepareUserSession mem_DataStore store0 ''T'' ''U1'' ''D9'' =
       \<lparr>store_calls = [CallGetDevice ''T'' ''D9''], store_after = store0,
        session = None, failure = Some ErrDeviceNotFound\<rparr>"
    by blast
  from c g3 n3 have r3: "PrepareUserSession mem_DataStore store0 ''T'' ''U1'' ''D2'' =
       \<lparr>store_calls = [CallGetDevice ''T'' ''D2''], store_after = store0,
        session = None, failure = Some ErrDeviceNotConnected\<rparr>"
    by blast
  from d g4 have r4: "\<exists>dc. GetDevice mem_DataStore store0 ''T'' ''D1'' = (Some dc, None)
           \<and> Device_Status dc = DeviceStatusConnected
           \<and> store_calls (PrepareUserSession mem_DataStore store0 ''T'' ''U1'' ''D1'') =
               [CallGetDevice ''T'' ''D1'', CallUpsertSession ''T'' ''U1'' (Device_ID dc)]"
    by blast
  from g1 r1 g2 r2 g3 r3 g4 r4 show ?thesis
    by blast
qed

section \<open>Starting and stopping the server: server.InitAndRun\<close>

text \<open>
  \<^verbatim>\<open>config.Reader\<close> is an interface of a library; the getters \<open>InitAndRun\<close> calls and
  the two a duration option would need are its fields here. \<^verbatim>\<open>time.Duration\<close> is a
  number of nanoseconds.
\<close>

record Reader =
  GetBool :: "string \<Rightarrow> bool"
  GetString :: "string \<Rightarrow> string"
  IsSet :: "string \<Rightarrow> bool"
  GetDuration :: "string \<Rightarrow> int"

definition Second :: int where
  "Second = 1000000000"

text \<open>
  Modelled from the spec: package \<^verbatim>\<open>config\<close> of the repository (the names of the
  settings) is not among the sources. The keys are the option names of section 6.
\<close>

definition SettingDebugLog :: string where
  "SettingDebugLog = ''debug_log''"

definition SettingNatsURI :: string where
  "SettingNatsURI = ''bus_uri''"

definition SettingListen :: string where
  "SettingListen = ''listen_addr''"

datatype signal = SIGINT | SIGTERM

text \<open>
  What the surroundings of \<open>InitAndRun\<close> answer: the global \<^verbatim>\<open>config.Config\<close>, the
  bus client's \<open>Connect\<close>, the error of \<^verbatim>\<open>api.NewRouter\<close>, the error with which
  \<^verbatim>\<open>srv.ListenAndServe\<close> stops before a shutdown is asked for (\<open>None\<close>: it serves
  until then), the signal that arrives on the channel \<open>quit\<close> (\<open>None\<close>: none ever
  does), and \<^verbatim>\<open>srv.Shutdown\<close> under a context with the given timeout.
\<close>

record Env =
  Config :: Reader
  Connect :: "string \<Rightarrow> error option"
  NewRouter :: "error option"
  ListenAndServe :: "string \<Rightarrow> error option"
  quit :: "signal option"
  Shutdown :: "int \<Rightarrow> error option"

datatype effect =
    LogSetup bool
  | ClientConnect string
  | Serve string
  | Notify "signal list"
  | LogInfo string
  | ServerShutdown int

text \<open>
  How the call ends: it returns an error or nil; \<^verbatim>\<open>l.Fatal\<close> ends the process with a
  non-zero exit code; or it waits on \<open>quit\<close> for ever.
\<close>

datatype outcome = Returns "error option" | Fatal | Blocks

definition InitAndRun :: "Reader \<Rightarrow> Env \<Rightarrow> effect list \<times> outcome" where
  "InitAndRun conf env =
     (let e0 = [LogSetup (GetBool conf SettingDebugLog)];
          natsURI = GetString (Config env) SettingNatsURI;
          e1 = (if natsURI \<noteq> [] then e0 @ [ClientConnect natsURI] else e0)
      in case (if natsURI \<noteq> [] then Connect env natsURI else None) of
           Some err \<Rightarrow> (e1, Returns (Some err))
         | None \<Rightarrow>
             (let listen = GetString conf SettingListen
              in case NewRouter env of
                   Some err \<Rightarrow> (e1, Fatal)
                 | None \<Rightarrow>
                     (if (case ListenAndServe env listen of
                            Some err \<Rightarrow> err \<noteq> ErrServerClosed
                          | None \<Rightarrow> False)
                      then (e1 @ [Serve listen], Fatal)
                      else
                          (case quit env of
                             None \<Rightarrow> (e1 @ [Serve listen, Notify [SIGINT, SIGTERM]], Blocks)
                           | Some sg \<Rightarrow>
                               (let e2 = e1 @ [Serve listen, Notify [SIGINT, SIGTERM],
                                               LogInfo ''Shutdown Server ...'',
                                               ServerShutdown (5 * Second)]
                                in case Shutdown env (5 * Second) of
                                     Some err \<Rightarrow> (e2, Fatal)
                                   | None \<Rightarrow> (e2, Returns None))))))"

text \<open>
  The grace period as the specification words it: the option \<open>shutdown_grace\<close> when it
  is configured, five seconds otherwise.
\<close>

definition spec_shutdown_grace :: "Reader \<Rightarrow> int" where
  "spec_shutdown_grace conf =
     (if IsSet conf ''shutdown_grace'' then GetDuration conf ''shutdown_grace'' else 5 * Second)"

text \<open>The server comes up: the bus client connects, the router is built, the listener binds.\<close>

definition comes_up :: "Reader \<Rightarrow> Env \<Rightarrow> bool" where
  "comes_up conf env =
     ((GetString (Config env) SettingNatsURI = [] \<or>
         Connect env (GetString (Config env) SettingNatsURI) = None)
      \<and> NewRouter env = None
      \<and> (ListenAndServe env (GetString conf SettingListen) = None \<or>
         ListenAndServe env (GetString conf SettingListen) = Some ErrServerClosed))"

text \<open>
  A configuration that sets \<open>shutdown_grace\<close> to ten seconds, and surroundings whose
  connections take seven seconds to drain: \<open>Shutdown\<close> succeeds under a timeout of
  seven seconds or more and reports the expired deadline under a shorter one.
\<close>

definition conf_grace10 :: Reader where
  "conf_grace10 =
     \<lparr>GetBool = (\<lambda>k. False),
      GetString = (\<lambda>k. if k = ''listen_addr'' then '':8080'' else []),
      IsSet = (\<lambda>k. k = ''shutdown_grace'' \<or> k = ''listen_addr''),
      GetDuration = (\<lambda>k. if k = ''shutdown_grace'' then 10 * Second else 0)\<rparr>"

definition conf_default :: Reader where
  "conf_default =
     \<lparr>GetBool = (\<lambda>k. False),
      GetString = (\<lambda>k. if k = ''listen_addr'' then '':8080'' else []),
      IsSet = (\<lambda>k. k = ''listen_addr''),
      GetDuration = (\<lambda>k. 0)\<rparr>"

definition env_drain :: "int \<Rightarrow> signal \<Rightarrow> Env" where
  "env_drain needed sg =
     \<lparr>Config = conf_default,
      Connect = (\<lambda>uri. None),
      NewRouter = None,
      ListenAndServe = (\<lambda>addr. None),
      quit = Some sg,
      Shutdown = (\<lambda>timeout. if needed \<le> timeout then None
                             else Some (Err ''context deadline exceeded''))\<rparr>"

lemma InitAndRun_after_signal:
  assumes "comes_up conf env" and "quit env = Some sg"
  shows "InitAndRun conf env =
           ((if GetString (Config env) SettingNatsURI \<noteq> []
             then [LogSetup (GetBool conf SettingDebugLog),
                   ClientConnect (GetString (Config env) SettingNatsURI)]
             else [LogSetup (GetBool conf SettingDebugLog)])
            @ [Serve (GetString conf SettingListen), Notify [SIGINT, SIGTERM],
               LogInfo ''Shutdown Server ...'', ServerShutdown (5 * Second)],
            (case Shutdown env (5 * Second) of Some err \<Rightarrow> Fatal | None \<Rightarrow> Returns None))"
  using assms
  by (auto simp: InitAndRun_def comes_up_def Let_def split: option.splits)

text \<open>
  Claim C9, as the code has it. When the server has come up and \<open>INT\<close> or \<open>TERM\<close>
  arrives, \<open>InitAndRun\<close> calls \<open>Shutdown\<close> once, under a timeout of five seconds
  whatever the configuration says; it returns nil when \<open>Shutdown\<close> completes within
  that time, and ends the process through \<open>Fatal\<close> when it does not.
\<close>

theorem InitAndRun_shutdown_five_seconds:
  assumes "comes_up conf env" and "quit env = Some sg"
  shows "[d. ServerShutdown d \<leftarrow> fst (InitAndRun conf env)] = [5 * Second]
         \<and> snd (InitAndRun conf env) =
             (if Shutdown env (5 * Second) = None then Returns None else Fatal)"
  unfolding InitAndRun_after_signal [OF assms]
  by (simp split: option.splits)

theorem InitAndRun_shutdown_five_seconds_witness:
  "comes_up conf_grace10 (env_drain (3 * Second) SIGINT)
   \<and> quit (env_drain (3 * Second) SIGINT) = Some SIGINT
   \<and> [d. ServerShutdown d \<leftarrow> fst (InitAndRun conf_grace10 (env_drain (3 * Second) SIGINT))]
       = [5 * Second]
   \<and> snd (InitAndRun conf_grace10 (env_drain (3 * Second) SIGINT)) = Returns None"
proof -
  have c: "comes_up conf_grace10 (env_drain (3 * Second) SIGINT)"
    by (simp add: comes_up_def env_drain_def conf_grace10_def conf_default_def
        SettingNatsURI_def SettingListen_def)
  have q: "quit (env_drain (3 * Second) SIGINT) = Some SIGINT"
    by (simp add: env_drain_def)
  have s: "Shutdown (env_drain (3 * Second) SIGINT) (5 * Second) = None"
    by (simp add: env_drain_def Second_def)
  from InitAndRun_shutdown_five_seconds [OF c q] c q s show ?thesis
    by simp
qed

text \<open>
  The claim as the specification states it fails: with \<open>shutdown_grace\<close> configured to
  ten seconds and connections that drain in seven, the specification's grace period
  would let the shutdown complete, but \<open>InitAndRun\<close> gives \<open>Shutdown\<close> five seconds and
  the process ends through \<open>Fatal\<close>.
\<close>

theorem InitAndRun_ignores_shutdown_grace:
  "spec_shutdown_grace conf_grace10 = 10 * Second
   \<and> Shutdown (env_drain (7 * Second) SIGTERM) (spec_shutdown_grace conf_grace10) = None
   \<and> [d. ServerShutdown d \<leftarrow> fst (InitAndRun conf_grace10 (env_drain (7 * Second) SIGTERM))]
       = [5 * Second]
   \<and> snd (InitAndRun conf_grace10 (env_drain (7 * Second) SIGTERM)) = Fatal"
  by (simp add: InitAndRun_def spec_shutdown_grace_def env_drain_def conf_grace10_def
      conf_default_def SettingNatsURI_def SettingListen_def SettingDebugLog_def Second_def
      Let_def)

section \<open>The frame codec\<close>

text \<open>
  Modelled from the spec: the codec (the \<^verbatim>\<open>ws.ProtoMsg\<close> type and the msgpack library
  that marshals it) is not among the sources; the test only calls
  \<^verbatim>\<open>msgpack.Marshal\<close> and \<^verbatim>\<open>msgpack.Unmarshal\<close>. The model follows sections 3 and 6:
  a frame is the two-element array \<open>[header, body]\<close>; the header is a map with the keys
  \<open>proto\<close> (uint16), \<open>msg_type\<close>, \<open>session_id\<close> (strings) and \<open>properties\<close> (a
  string-keyed map of scalars); the body is a byte string; the bytes are laid out as
  msgpack lays them out (a tag byte, then a big-endian length or value). The encoder
  picks the shortest form; the decoder reads every form of the types it expects, takes
  the header's keys in any order, and fails on truncation, on an unknown key and on a
  value whose tag is not of the expected type.

  A Go map has no order; the properties are the list of its entries in the order the
  encoder emits them, with distinct keys. Floating point scalars are carried as their
  IEEE bit patterns, which is what the wire holds.
\<close>

type_synonym byte = "8 word"

definition byte :: "nat \<Rightarrow> byte" where
  "byte n = of_nat n"

definition byte_of_char :: "char \<Rightarrow> byte" where
  "byte_of_char c = of_nat (of_char c)"

definition char_of_byte :: "byte \<Rightarrow> char" where
  "char_of_byte b = char_of (unat b)"

fun be :: "nat \<Rightarrow> nat \<Rightarrow> byte list" where
  "be 0 n = []"
| "be (Suc k) n = byte (n div 256 ^ k) # be k (n mod 256 ^ k)"

definition be_nat :: "byte list \<Rightarrow> nat" where
  "be_nat bs = foldl (\<lambda>a b. a * 256 + unat b) 0 bs"

definition take_n :: "nat \<Rightarrow> byte list \<Rightarrow> (byte list \<times> byte list) option" where
  "take_n n bs = (if length bs < n then None else Some (take n bs, drop n bs))"

definition dec_be :: "nat \<Rightarrow> byte list \<Rightarrow> (nat \<times> byte list) option" where
  "dec_be k bs = (case take_n k bs of None \<Rightarrow> None | Some (x, r) \<Rightarrow> Some (be_nat x, r))"

definition dec_sized :: "nat \<Rightarrow> byte list \<Rightarrow> (byte list \<times> byte list) option" where
  "dec_sized k bs = (case dec_be k bs of None \<Rightarrow> None | Some (n, r) \<Rightarrow> take_n n r)"

lemma unat_byte: "n < 256 \<Longrightarrow> unat (byte n) = n"
  by (simp add: byte_def unat_of_nat)

lemma char_of_byte_of_char: "char_of_byte (byte_of_char c) = c"
  by (simp add: char_of_byte_def byte_of_char_def unat_of_nat nat_of_char_less_256)

lemma map_char_of_byte: "map (char_of_byte \<circ> byte_of_char) s = s"
  by (induction s) (simp_all add: char_of_byte_of_char)

lemma length_be: "length (be k n) = k"
  by (induction k arbitrary: n) simp_all

lemma foldl_be:
  "n < 256 ^ k \<Longrightarrow> foldl (\<lambda>a b. a * 256 + unat b) a (be k n) = a * 256 ^ k + n"
proof (induction k arbitrary: a n)
  case 0
  then show ?case by simp
next
  case (Suc k)
  have d: "n div 256 ^ k < 256"
    using Suc.prems by (simp add: less_mult_imp_div_less mult.commute)
  have m: "n mod 256 ^ k < 256 ^ k" by simp
  have "foldl (\<lambda>a b. a * 256 + unat b) a (be (Suc k) n)
      = (a * 256 + n div 256 ^ k) * 256 ^ k + n mod 256 ^ k"
    using Suc.IH [OF m] d by (simp add: unat_byte)
  also have "\<dots> = a * 256 ^ Suc k + (n div 256 ^ k * 256 ^ k + n mod 256 ^ k)"
    by (simp add: algebra_simps)
  also have "n div 256 ^ k * 256 ^ k + n mod 256 ^ k = n"
    by (rule div_mult_mod_eq)
  finally show ?case .
qed

lemma be_nat_be: "n < 256 ^ k \<Longrightarrow> be_nat (be k n) = n"
  using foldl_be [of n k 0] by (simp add: be_nat_def)

lemma take_n_append: "take_n (length xs) (xs @ r) = Some (xs, r)"
  by (simp add: take_n_def)

lemma dec_be_be: "n < 256 ^ k \<Longrightarrow> dec_be k (be k n @ r) = Some (n, r)"
  using take_n_append [of "be k n" r] by (simp add: dec_be_def length_be be_nat_be)

lemma dec_sized_be:
  "length xs < 256 ^ k \<Longrightarrow> dec_sized k (be k (length xs) @ xs @ r) = Some (xs, r)"
  by (simp add: dec_sized_def dec_be_be take_n_append)


datatype scalar =
    SNil
  | SBool bool
  | SInt int
  | SFloat32 "32 word"
  | SFloat64 "64 word"
  | SStr string
  | SBin "byte list"

record ProtoHdr =
  Proto :: "16 word"
  MsgType :: string
  SessionID :: string
  Properties :: "(string \<times> scalar) list"

record ProtoMsg =
  Header :: ProtoHdr
  Body :: "byte list"

definition enc_uint :: "nat \<Rightarrow> byte list" where
  "enc_uint n =
     (if n < 128 then [byte n]
      else if n < 256 then byte 0xcc # be 1 n
      else if n < 65536 then byte 0xcd # be 2 n
      else if n < 4294967296 then byte 0xce # be 4 n
      else byte 0xcf # be 8 n)"

definition enc_int :: "int \<Rightarrow> byte list" where
  "enc_int i =
     (if 0 \<le> i then enc_uint (nat i)
      else if - 32 \<le> i then [byte (nat (256 + i))]
      else if - 128 \<le> i then byte 0xd0 # be 1 (nat (256 + i))
      else if - 32768 \<le> i then byte 0xd1 # be 2 (nat (65536 + i))
      else if - 2147483648 \<le> i then byte 0xd2 # be 4 (nat (4294967296 + i))
      else byte 0xd3 # be 8 (nat (18446744073709551616 + i)))"

definition enc_raw :: "nat \<Rightarrow> byte list \<Rightarrow> byte list" where
  "enc_raw base bs =
     (let n = length bs in
      if n < 256 then byte base # be 1 n @ bs
      else if n < 65536 then byte (base + 1) # be 2 n @ bs
      else byte (base + 2) # be 4 n @ bs)"

definition enc_bin :: "byte list \<Rightarrow> byte list" where
  "enc_bin bs = enc_raw 0xc4 bs"

definition enc_str :: "string \<Rightarrow> byte list" where
  "enc_str s =
     (if length s < 32 then byte (0xa0 + length s) # map byte_of_char s
      else enc_raw 0xd9 (map byte_of_char s))"

definition enc_count :: "nat \<Rightarrow> nat \<Rightarrow> nat \<Rightarrow> byte list" where
  "enc_count base tag16 n =
     (if n < 16 then [byte (base + n)]
      else if n < 65536 then byte tag16 # be 2 n
      else byte (tag16 + 1) # be 4 n)"

definition enc_map_hdr :: "nat \<Rightarrow> byte list" where
  "enc_map_hdr n = enc_count 0x80 0xde n"

definition enc_array_hdr :: "nat \<Rightarrow> byte list" where
  "enc_array_hdr n = enc_count 0x90 0xdc n"

fun enc_scalar :: "scalar \<Rightarrow> byte list" where
  "enc_scalar SNil = [byte 0xc0]"
| "enc_scalar (SBool b) = [byte (if b then 0xc3 else 0xc2)]"
| "enc_scalar (SInt i) = enc_int i"
| "enc_scalar (SFloat32 w) = byte 0xca # be 4 (unat w)"
| "enc_scalar (SFloat64 w) = byte 0xcb # be 8 (unat w)"
| "enc_scalar (SStr s) = enc_str s"
| "enc_scalar (SBin bs) = enc_bin bs"

fun enc_entries :: "(string \<times> scalar) list \<Rightarrow> byte list" where
  "enc_entries [] = []"
| "enc_entries ((k, v) # kvs) = enc_str k @ enc_scalar v @ enc_entries kvs"

definition enc_props :: "(string \<times> scalar) list \<Rightarrow> byte list" where
  "enc_props kvs = enc_map_hdr (length kvs) @ enc_entries kvs"

definition enc_hdr :: "ProtoHdr \<Rightarrow> byte list" where
  "enc_hdr h =
     enc_map_hdr 4
     @ enc_str ''proto'' @ enc_uint (unat (Proto h))
     @ enc_str ''msg_type'' @ enc_str (MsgType h)
     @ enc_str ''session_id'' @ enc_str (SessionID h)
     @ enc_str ''properties'' @ enc_props (Properties h)"

definition encode :: "ProtoMsg \<Rightarrow> byte list" where
  "encode m = enc_array_hdr 2 @ enc_hdr (Header m) @ enc_bin (Body m)"

definition dec_raw :: "nat \<Rightarrow> nat \<Rightarrow> byte list \<Rightarrow> (byte list \<times> byte list) option" where
  "dec_raw base t r =
     (if t = base then dec_sized 1 r
      else if t = base + 1 then dec_sized 2 r
      else if t = base + 2 then dec_sized 4 r
      else None)"

definition dec_bin :: "byte list \<Rightarrow> (byte list \<times> byte list) option" where
  "dec_bin bs = (case bs of [] \<Rightarrow> None | b # r \<Rightarrow> dec_raw 0xc4 (unat b) r)"

definition chars :: "(byte list \<times> byte list) option \<Rightarrow> (string \<times> byte list) option" where
  "chars x = (case x of None \<Rightarrow> None | Some (bs, r) \<Rightarrow> Some (map char_of_byte bs, r))"

definition dec_str_tag :: "nat \<Rightarrow> byte list \<Rightarrow> (string \<times> byte list) option" where
  "dec_str_tag t r =
     (if 0xa0 \<le> t \<and> t < 0xc0 then chars (take_n (t - 0xa0) r)
      else chars (dec_raw 0xd9 t r))"

definition dec_str :: "byte list \<Rightarrow> (string \<times> byte list) option" where
  "dec_str bs = (case bs of [] \<Rightarrow> None | b # r \<Rightarrow> dec_str_tag (unat b) r)"

definition dec_uint_tag :: "nat \<Rightarrow> byte list \<Rightarrow> (nat \<times> byte list) option" where
  "dec_uint_tag t r =
     (if t < 0x80 then Some (t, r)
      else if t = 0xcc then dec_be 1 r
      else if t = 0xcd then dec_be 2 r
      else if t = 0xce then dec_be 4 r
      else if t = 0xcf then dec_be 8 r
      else None)"

definition as_signed :: "nat \<Rightarrow> (nat \<times> byte list) option \<Rightarrow> (int \<times> byte list) option" where
  "as_signed k x =
     (case x of
        None \<Rightarrow> None
      | Some (n, r) \<Rightarrow>
          Some (if n < 256 ^ k div 2 then int n else int n - 256 ^ k, r))"

definition dec_int_tag :: "nat \<Rightarrow> byte list \<Rightarrow> (int \<times> byte list) option" where
  "dec_int_tag t r =
     (if 0xe0 \<le> t then Some (int t - 256, r)
      else if t = 0xd0 then as_signed 1 (dec_be 1 r)
      else if t = 0xd1 then as_signed 2 (dec_be 2 r)
      else if t = 0xd2 then as_signed 4 (dec_be 4 r)
      else if t = 0xd3 then as_signed 8 (dec_be 8 r)
      else (case dec_uint_tag t r of None \<Rightarrow> None | Some (n, r') \<Rightarrow> Some (int n, r')))"

definition dec_count :: "nat \<Rightarrow> nat \<Rightarrow> byte list \<Rightarrow> (nat \<times> byte list) option" where
  "dec_count base tag16 bs =
     (case bs of
        [] \<Rightarrow> None
      | b # r \<Rightarrow>
          (let t = unat b in
           if base \<le> t \<and> t < base + 16 then Some (t - base, r)
           else if t = tag16 then dec_be 2 r
           else if t = tag16 + 1 then dec_be 4 r
           else None))"

definition dec_scalar :: "byte list \<Rightarrow> (scalar \<times> byte list) option" where
  "dec_scalar bs =
     (case bs of
        [] \<Rightarrow> None
      | b # r \<Rightarrow>
          (let t = unat b in
           if t = 0xc0 then Some (SNil, r)
           else if t = 0xc2 then Some (SBool False, r)
           else if t = 0xc3 then Some (SBool True, r)
           else if t = 0xca then
             (case dec_be 4 r of None \<Rightarrow> None | Some (n, r') \<Rightarrow> Some (SFloat32 (of_nat n), r'))
           else if t = 0xcb then
             (case dec_be 8 r of None \<Rightarrow> None | Some (n, r') \<Rightarrow> Some (SFloat64 (of_nat n), r'))
           else if t = 0xc4 \<or> t = 0xc5 \<or> t = 0xc6 then
             (case dec_raw 0xc4 t r of None \<Rightarrow> None | Some (x, r') \<Rightarrow> Some (SBin x, r'))
           else if (0xa0 \<le> t \<and> t < 0xc0) \<or> t = 0xd9 \<or> t = 0xda \<or> t = 0xdb then
             (case dec_str_tag t r of None \<Rightarrow> None | Some (s, r') \<Rightarrow> Some (SStr s, r'))
           else
             (case dec_int_tag t r of None \<Rightarrow> None | Some (i, r') \<Rightarrow> Some (SInt i, r'))))"

fun dec_entries :: "nat \<Rightarrow> byte list \<Rightarrow> ((string \<times> scalar) list \<times> byte list) option" where
  "dec_entries 0 bs = Some ([], bs)"
| "dec_entries (Suc n) bs =
     (case dec_str bs of
        None \<Rightarrow> None
      | Some (k, r) \<Rightarrow>
          (case dec_scalar r of
             None \<Rightarrow> None
           | Some (v, r') \<Rightarrow>
               (case dec_entries n r' of
                  None \<Rightarrow> None
                | Some (kvs, r'') \<Rightarrow> Some ((k, v) # kvs, r''))))"

definition dec_props :: "byte list \<Rightarrow> ((string \<times> scalar) list \<times> byte list) option" where
  "dec_props bs =
     (case dec_count 0x80 0xde bs of None \<Rightarrow> None | Some (n, r) \<Rightarrow> dec_entries n r)"

definition dec_proto :: "byte list \<Rightarrow> (16 word \<times> byte list) option" where
  "dec_proto bs =
     (case bs of
        [] \<Rightarrow> None
      | b # r \<Rightarrow>
          (case dec_uint_tag (unat b) r of
             None \<Rightarrow> None
           | Some (n, r') \<Rightarrow> if n < 65536 then Some (of_nat n, r') else None))"

fun dec_fields :: "nat \<Rightarrow> ProtoHdr \<Rightarrow> byte list \<Rightarrow> (ProtoHdr \<times> byte list) option" where
  "dec_fields 0 h bs = Some (h, bs)"
| "dec_fields (Suc n) h bs =
     (case dec_str bs of
        None \<Rightarrow> None
      | Some (k, r) \<Rightarrow>
          if k = ''proto'' then
            (case dec_proto r of
               None \<Rightarrow> None | Some (p, r') \<Rightarrow> dec_fields n (h\<lparr>Proto := p\<rparr>) r')
          else if k = ''msg_type'' then
            (case dec_str r of
               None \<Rightarrow> None | Some (s, r') \<Rightarrow> dec_fields n (h\<lparr>MsgType := s\<rparr>) r')
          else if k = ''session_id'' then
            (case dec_str r of
               None \<Rightarrow> None | Some (s, r') \<Rightarrow> dec_fields n (h\<lparr>SessionID := s\<rparr>) r')
          else if k = ''properties'' then
            (case dec_props r of
               None \<Rightarrow> None | Some (ps, r') \<Rightarrow> dec_fields n (h\<lparr>Properties := ps\<rparr>) r')
          else None)"

definition zero_hdr :: ProtoHdr where
  "zero_hdr = \<lparr>Proto = 0, MsgType = [], SessionID = [], Properties = []\<rparr>"

definition dec_hdr :: "byte list \<Rightarrow> (ProtoHdr \<times> byte list) option" where
  "dec_hdr bs =
     (case dec_count 0x80 0xde bs of None \<Rightarrow> None | Some (n, r) \<Rightarrow> dec_fields n zero_hdr r)"

definition decode :: "byte list \<Rightarrow> error + ProtoMsg" where
  "decode bs =
     (case dec_count 0x90 0xdc bs of
        None \<Rightarrow> Inl ErrMalformedFrame
      | Some (n, r) \<Rightarrow>
          if n \<noteq> 2 then Inl ErrMalformedFrame
          else (case dec_hdr r of
             None \<Rightarrow> Inl ErrMalformedFrame
           | Some (h, r') \<Rightarrow>
               (case dec_bin r' of
                  None \<Rightarrow> Inl ErrMalformedFrame
                | Some (b, r'') \<Rightarrow> Inr \<lparr>Header = h, Body = b\<rparr>)))"


text \<open>
  A valid message: every length fits the 32 bits msgpack has for it, every integer
  fits 64 bits (signed or unsigned), and the property keys are distinct.
\<close>

definition valid_len :: "nat \<Rightarrow> bool" where
  "valid_len n = (n < 4294967296)"

fun valid_scalar :: "scalar \<Rightarrow> bool" where
  "valid_scalar (SInt i) = (- 9223372036854775808 \<le> i \<and> i < 18446744073709551616)"
| "valid_scalar (SStr s) = valid_len (length s)"
| "valid_scalar (SBin bs) = valid_len (length bs)"
| "valid_scalar v = True"

definition valid_props :: "(string \<times> scalar) list \<Rightarrow> bool" where
  "valid_props kvs =
     (valid_len (length kvs) \<and> distinct (map fst kvs)
      \<and> list_all (\<lambda>kv. valid_len (length (fst kv)) \<and> valid_scalar (snd kv)) kvs)"

definition valid :: "ProtoMsg \<Rightarrow> bool" where
  "valid m =
     (valid_len (length (MsgType (Header m))) \<and> valid_len (length (SessionID (Header m)))
      \<and> valid_props (Properties (Header m)) \<and> valid_len (length (Body m)))"

lemma dec_raw_enc_raw:
  assumes "length bs < 4294967296" and "base < 254"
  shows "\<exists>t r'. enc_raw base bs @ r = byte t # r' \<and> t < 256 \<and> base \<le> t \<and> t \<le> base + 2
           \<and> dec_raw base t r' = Some (bs, r)"
proof -
  consider "length bs < 256" | "256 \<le> length bs" "length bs < 65536" | "65536 \<le> length bs"
    by linarith
  then show ?thesis
  proof cases
    case 1
    then have "dec_sized 1 (be 1 (length bs) @ bs @ r) = Some (bs, r)"
      by (intro dec_sized_be) simp
    with 1 assms show ?thesis
      by (intro exI [of _ base]) (simp add: enc_raw_def dec_raw_def Let_def)
  next
    case 2
    then have "dec_sized 2 (be 2 (length bs) @ bs @ r) = Some (bs, r)"
      by (intro dec_sized_be) simp
    with 2 assms show ?thesis
      by (intro exI [of _ "base + 1"]) (simp add: enc_raw_def dec_raw_def Let_def)
  next
    case 3
    from assms have "dec_sized 4 (be 4 (length bs) @ bs @ r) = Some (bs, r)"
      by (intro dec_sized_be) simp
    with 3 assms show ?thesis
      by (intro exI [of _ "base + 2"]) (simp add: enc_raw_def dec_raw_def Let_def)
  qed
qed

lemma dec_bin_enc_bin:
  assumes "valid_len (length bs)"
  shows "dec_bin (enc_bin bs @ r) = Some (bs, r)"
proof -
  from assms obtain t r' where "enc_raw 0xc4 bs @ r = byte t # r'" "t < 256"
      "dec_raw 0xc4 t r' = Some (bs, r)"
    using dec_raw_enc_raw [of bs "0xc4" r] by (auto simp: valid_len_def)
  then show ?thesis
    by (simp add: dec_bin_def enc_bin_def unat_byte)
qed


lemma dec_str_enc_str:
  assumes "valid_len (length s)"
  shows "dec_str (enc_str s @ r) = Some (s, r)"
proof (cases "length s < 32")
  case True
  have "take_n (length (map byte_of_char s)) (map byte_of_char s @ r)
      = Some (map byte_of_char s, r)"
    by (rule take_n_append)
  with True show ?thesis
    by (simp add: dec_str_def enc_str_def dec_str_tag_def unat_byte chars_def map_char_of_byte)
next
  case False
  from assms obtain t r' where e: "enc_raw 0xd9 (map byte_of_char s) @ r = byte t # r'"
      and t: "t < 256" "0xd9 \<le> t"
      and d: "dec_raw 0xd9 t r' = Some (map byte_of_char s, r)"
    using dec_raw_enc_raw [of "map byte_of_char s" "0xd9" r] by (auto simp: valid_len_def)
  from False e t d show ?thesis
    by (simp add: dec_str_def enc_str_def dec_str_tag_def unat_byte chars_def map_char_of_byte)
qed

lemma dec_count_enc_count:
  assumes "valid_len n" and "base + 16 \<le> tag16" and "tag16 < 255"
  shows "dec_count base tag16 (enc_count base tag16 n @ r) = Some (n, r)"
proof -
  consider "n < 16" | "16 \<le> n" "n < 65536" | "65536 \<le> n"
    by linarith
  then show ?thesis
  proof cases
    case 1
    with assms show ?thesis
      by (simp add: dec_count_def enc_count_def unat_byte Let_def)
  next
    case 2
    then have "dec_be 2 (be 2 n @ r) = Some (n, r)"
      by (intro dec_be_be) simp
    with 2 assms show ?thesis
      by (simp add: dec_count_def enc_count_def unat_byte Let_def)
  next
    case 3
    from assms have "dec_be 4 (be 4 n @ r) = Some (n, r)"
      by (intro dec_be_be) (simp add: valid_len_def)
    with 3 assms show ?thesis
      by (simp add: dec_count_def enc_count_def unat_byte Let_def)
  qed
qed

lemma dec_uint_enc_uint:
  assumes "n < 18446744073709551616"
  shows "\<exists>t r'. enc_uint n @ r = byte t # r' \<and> t < 256 \<and> (t < 0x80 \<or> (0xcc \<le> t \<and> t \<le> 0xcf))
           \<and> dec_uint_tag t r' = Some (n, r)"
proof -
  consider "n < 128" | "128 \<le> n" "n < 256" | "256 \<le> n" "n < 65536"
    | "65536 \<le> n" "n < 4294967296" | "4294967296 \<le> n"
    by linarith
  then show ?thesis
  proof cases
    case 1
    then show ?thesis
      by (intro exI [of _ n]) (simp add: enc_uint_def dec_uint_tag_def)
  next
    case 2
    then have "dec_be 1 (be 1 n @ r) = Some (n, r)"
      by (intro dec_be_be) simp
    with 2 show ?thesis
      by (intro exI [of _ "0xcc"]) (simp add: enc_uint_def dec_uint_tag_def)
  next
    case 3
    then have "dec_be 2 (be 2 n @ r) = Some (n, r)"
      by (intro dec_be_be) simp
    with 3 show ?thesis
      by (intro exI [of _ "0xcd"]) (simp add: enc_uint_def dec_uint_tag_def)
  next
    case 4
    then have "dec_be 4 (be 4 n @ r) = Some (n, r)"
      by (intro dec_be_be) simp
    with 4 show ?thesis
      by (intro exI [of _ "0xce"]) (simp add: enc_uint_def dec_uint_tag_def)
  next
    case 5
    from assms have "dec_be 8 (be 8 n @ r) = Some (n, r)"
      by (intro dec_be_be) simp
    with 5 show ?thesis
      by (intro exI [of _ "0xcf"]) (simp add: enc_uint_def dec_uint_tag_def)
  qed
qed


lemma dec_int_enc_int:
  assumes "- 9223372036854775808 \<le> i" and "i < 18446744073709551616"
  shows "\<exists>t r'. enc_int i @ r = byte t # r' \<and> t < 256
           \<and> (t < 0x80 \<or> (0xcc \<le> t \<and> t \<le> 0xd3) \<or> 0xe0 \<le> t)
           \<and> dec_int_tag t r' = Some (i, r)"
proof -
  consider "0 \<le> i" | "- 32 \<le> i" "i < 0" | "- 128 \<le> i" "i < - 32"
    | "- 32768 \<le> i" "i < - 128" | "- 2147483648 \<le> i" "i < - 32768" | "i < - 2147483648"
    by linarith
  then show ?thesis
  proof cases
    case 1
    with assms have "nat i < 18446744073709551616" by linarith
    from dec_uint_enc_uint [OF this, of r] obtain t r'
      where u: "enc_uint (nat i) @ r = byte t # r'" "t < 256"
        "t < 0x80 \<or> (0xcc \<le> t \<and> t \<le> 0xcf)" "dec_uint_tag t r' = Some (nat i, r)"
      by blast
    from 1 have e: "enc_int i = enc_uint (nat i)"
      by (simp add: enc_int_def)
    from u 1 show ?thesis
      unfolding e by (intro exI [of _ t] exI [of _ r']) (auto simp: dec_int_tag_def)
  next
    case 2
    define n where "n = nat (256 + i)"
    from 2 have n: "n < 256" "224 \<le> n" "int n - 256 = i"
      unfolding n_def by linarith+
    from 2 have e: "enc_int i = [byte n]"
      unfolding n_def by (simp add: enc_int_def)
    from n show ?thesis
      unfolding e by (intro exI [of _ n] exI [of _ r]) (simp add: dec_int_tag_def)
  next
    case 3
    define n where "n = nat (256 + i)"
    from 3 assms have n: "n < 256" "128 \<le> n" "int n - 256 = i"
      unfolding n_def by linarith+
    from 3 have e: "enc_int i = byte 0xd0 # be 1 n"
      unfolding n_def by (simp add: enc_int_def)
    from n have "dec_be 1 (be 1 n @ r) = Some (n, r)"
      by (intro dec_be_be) simp
    with n show ?thesis
      unfolding e by (intro exI [of _ "0xd0"]) (simp add: dec_int_tag_def as_signed_def)
  next
    case 4
    define n where "n = nat (65536 + i)"
    from 4 assms have n: "n < 65536" "32768 \<le> n" "int n - 65536 = i"
      unfolding n_def by linarith+
    from 4 have e: "enc_int i = byte 0xd1 # be 2 n"
      unfolding n_def by (simp add: enc_int_def)
    from n have "dec_be 2 (be 2 n @ r) = Some (n, r)"
      by (intro dec_be_be) simp
    with n show ?thesis
      unfolding e by (intro exI [of _ "0xd1"]) (simp add: dec_int_tag_def as_signed_def)
  next
    case 5
    define n where "n = nat (4294967296 + i)"
    from 5 assms have n: "n < 4294967296" "2147483648 \<le> n" "int n - 4294967296 = i"
      unfolding n_def by linarith+
    from 5 have e: "enc_int i = byte 0xd2 # be 4 n"
      unfolding n_def by (simp add: enc_int_def)
    from n have "dec_be 4 (be 4 n @ r) = Some (n, r)"
      by (intro dec_be_be) simp
    with n show ?thesis
      unfolding e by (intro exI [of _ "0xd2"]) (simp add: dec_int_tag_def as_signed_def)
  next
    case 6
    define n where "n = nat (18446744073709551616 + i)"
    from 6 assms have n: "n < 18446744073709551616" "9223372036854775808 \<le> n" "int n - 18446744073709551616 = i"
      unfolding n_def by linarith+
    from 6 have e: "enc_int i = byte 0xd3 # be 8 n"
      unfolding n_def by (simp add: enc_int_def)
    from n have "dec_be 8 (be 8 n @ r) = Some (n, r)"
      by (intro dec_be_be) simp
    with n show ?thesis
      unfolding e by (intro exI [of _ "0xd3"]) (simp add: dec_int_tag_def as_signed_def)
  qed
qed


lemma dec_scalar_enc_scalar:
  assumes "valid_scalar v"
  shows "dec_scalar (enc_scalar v @ r) = Some (v, r)"
proof (cases v)
  case SNil
  then show ?thesis by (simp add: dec_scalar_def unat_byte)
next
  case (SBool b)
  then show ?thesis by (simp add: dec_scalar_def unat_byte)
next
  case (SInt i)
  with assms obtain t r' where "enc_int i @ r = byte t # r'" "t < 256"
      "t < 0x80 \<or> (0xcc \<le> t \<and> t \<le> 0xd3) \<or> 0xe0 \<le> t" "dec_int_tag t r' = Some (i, r)"
    using dec_int_enc_int [of i r] by auto
  with SInt show ?thesis
    by (auto simp: dec_scalar_def unat_byte Let_def)
next
  case (SFloat32 w)
  have "unat w < 256 ^ 4"
    using unsigned_less [of w] by simp
  then have "dec_be 4 (be 4 (unat w) @ r) = Some (unat w, r)"
    by (rule dec_be_be)
  with SFloat32 show ?thesis
    by (simp add: dec_scalar_def unat_byte)
next
  case (SFloat64 w)
  have "unat w < 256 ^ 8"
    using unsigned_less [of w] by simp
  then have "dec_be 8 (be 8 (unat w) @ r) = Some (unat w, r)"
    by (rule dec_be_be)
  with SFloat64 show ?thesis
    by (simp add: dec_scalar_def unat_byte)
next
  case (SStr s)
  with assms have d: "dec_str (enc_str s @ r) = Some (s, r)"
    by (simp add: dec_str_enc_str)
  obtain t r' where e: "enc_str s @ r = byte t # r'" and t: "t < 256"
      "(0xa0 \<le> t \<and> t < 0xc0) \<or> t = 0xd9 \<or> t = 0xda \<or> t = 0xdb"
  proof (cases "length s < 32")
    case True
    then show ?thesis
      by (intro that [of "0xa0 + length s" "map byte_of_char s @ r"]) (simp_all add: enc_str_def)
  next
    case False
    from SStr assms obtain t r' where "enc_raw 0xd9 (map byte_of_char s) @ r = byte t # r'"
        "t < 256" "0xd9 \<le> t" "t \<le> 0xd9 + 2"
      using dec_raw_enc_raw [of "map byte_of_char s" "0xd9" r] by (auto simp: valid_len_def)
    with False show ?thesis
      by (intro that [of t r']) (simp_all add: enc_str_def, linarith)
  qed
  from d e t have "dec_str_tag t r' = Some (s, r)"
    by (simp add: dec_str_def unat_byte)
  with SStr e t show ?thesis
    by (auto simp: dec_scalar_def unat_byte Let_def)
next
  case (SBin bs)
  with assms obtain t r' where "enc_raw 0xc4 bs @ r = byte t # r'" "t < 256"
      "0xc4 \<le> t" "t \<le> 0xc4 + 2" "dec_raw 0xc4 t r' = Some (bs, r)"
    using dec_raw_enc_raw [of bs "0xc4" r] by (auto simp: valid_len_def)
  moreover from this have "t = 0xc4 \<or> t = 0xc5 \<or> t = 0xc6" by linarith
  ultimately show ?thesis
    using SBin by (auto simp: dec_scalar_def enc_bin_def unat_byte Let_def)
qed

lemma dec_entries_enc_entries:
  assumes "list_all (\<lambda>kv. valid_len (length (fst kv)) \<and> valid_scalar (snd kv)) kvs"
  shows "dec_entries (length kvs) (enc_entries kvs @ r) = Some (kvs, r)"
  using assms
proof (induction kvs)
  case Nil
  then show ?case by simp
next
  case (Cons kv kvs)
  obtain k v where kv: "kv = (k, v)" by (cases kv)
  with Cons.prems have "dec_str (enc_str k @ enc_scalar v @ enc_entries kvs @ r)
      = Some (k, enc_scalar v @ enc_entries kvs @ r)"
    by (simp add: dec_str_enc_str)
  moreover from kv Cons.prems have "dec_scalar (enc_scalar v @ enc_entries kvs @ r)
      = Some (v, enc_entries kvs @ r)"
    by (simp add: dec_scalar_enc_scalar)
  moreover from Cons have "dec_entries (length kvs) (enc_entries kvs @ r) = Some (kvs, r)"
    by simp
  ultimately show ?case
    using kv by simp
qed

lemma dec_props_enc_props:
  assumes "valid_props kvs"
  shows "dec_props (enc_props kvs @ r) = Some (kvs, r)"
proof -
  from assms have "dec_count 0x80 0xde (enc_count 0x80 0xde (length kvs) @ enc_entries kvs @ r)
      = Some (length kvs, enc_entries kvs @ r)"
    by (intro dec_count_enc_count) (simp_all add: valid_props_def)
  with assms show ?thesis
    by (simp add: dec_props_def enc_props_def enc_map_hdr_def dec_entries_enc_entries
        valid_props_def)
qed

lemma dec_proto_enc_uint: "dec_proto (enc_uint (unat (p :: 16 word)) @ r) = Some (p, r)"
proof -
  have p: "unat p < 65536"
    using unsigned_less [of p] by simp
  then have "unat p < 18446744073709551616" by linarith
  from dec_uint_enc_uint [OF this, of r] obtain t r'
    where "enc_uint (unat p) @ r = byte t # r'" "t < 256" "dec_uint_tag t r' = Some (unat p, r)"
    by blast
  with p show ?thesis
    by (simp add: dec_proto_def unat_byte)
qed


lemma dec_str_key:
  "length k < 32 \<Longrightarrow> dec_str (enc_str k @ r) = Some (k, r)"
  by (rule dec_str_enc_str) (simp add: valid_len_def)

lemma dec_hdr_enc_hdr:
  assumes "valid_len (length (MsgType h))" and "valid_len (length (SessionID h))"
    and "valid_props (Properties h)"
  shows "dec_hdr (enc_hdr h @ r) = Some (h, r)"
proof -
  let ?f4 = "enc_str ''properties'' @ enc_props (Properties h) @ r"
  let ?f3 = "enc_str ''session_id'' @ enc_str (SessionID h) @ ?f4"
  let ?f2 = "enc_str ''msg_type'' @ enc_str (MsgType h) @ ?f3"
  let ?f1 = "enc_str ''proto'' @ enc_uint (unat (Proto h)) @ ?f2"
  let ?h1 = "zero_hdr\<lparr>Proto := Proto h\<rparr>"
  let ?h2 = "?h1\<lparr>MsgType := MsgType h\<rparr>"
  let ?h3 = "?h2\<lparr>SessionID := SessionID h\<rparr>"
  have s4: "dec_fields (Suc 0) ?h3 ?f4 = Some (?h3\<lparr>Properties := Properties h\<rparr>, r)"
    using assms(3) by (simp add: dec_str_key dec_props_enc_props)
  have s3: "dec_fields (Suc (Suc 0)) ?h2 ?f3 = Some (?h3\<lparr>Properties := Properties h\<rparr>, r)"
    using assms(2) s4 by (simp add: dec_str_key dec_str_enc_str)
  have s2: "dec_fields (Suc (Suc (Suc 0))) ?h1 ?f2
      = Some (?h3\<lparr>Properties := Properties h\<rparr>, r)"
    using assms(1) s3 by (simp add: dec_str_key dec_str_enc_str)
  have s1: "dec_fields (Suc (Suc (Suc (Suc 0)))) zero_hdr ?f1
      = Some (?h3\<lparr>Properties := Properties h\<rparr>, r)"
    using s2 by (simp add: dec_str_key dec_proto_enc_uint)
  have h: "?h3\<lparr>Properties := Properties h\<rparr> = h"
    by (simp add: zero_hdr_def)
  have c: "dec_count 0x80 0xde (enc_count 0x80 0xde 4 @ ?f1) = Some (4, ?f1)"
    by (intro dec_count_enc_count) (simp_all add: valid_len_def)
  have n: "(4 :: nat) = Suc (Suc (Suc (Suc 0)))" by simp
  from c s1 h show ?thesis
    unfolding dec_hdr_def enc_hdr_def enc_map_hdr_def append_assoc
    by (simp only: n option.case prod.case)
qed

lemma decode_encode:
  assumes "valid m"
  shows "decode (encode m) = Inr m"
proof -
  let ?rest = "enc_hdr (Header m) @ enc_bin (Body m)"
  have c: "dec_count 0x90 0xdc (enc_count 0x90 0xdc 2 @ ?rest) = Some (2, ?rest)"
    by (intro dec_count_enc_count) (simp_all add: valid_len_def)
  from assms have h: "dec_hdr (enc_hdr (Header m) @ enc_bin (Body m))
      = Some (Header m, enc_bin (Body m))"
    by (intro dec_hdr_enc_hdr) (simp_all add: valid_def)
  from assms have b: "dec_bin (enc_bin (Body m) @ []) = Some (Body m, [])"
    by (intro dec_bin_enc_bin) (simp add: valid_def)
  from c h b show ?thesis
    by (simp add: decode_def encode_def enc_array_hdr_def)
qed

definition hello :: ProtoMsg where
  "hello =
     \<lparr>Header = \<lparr>Proto = 1, MsgType = ''hello'', SessionID = ''session_id'',
                 Properties = [(''user_id'', SStr ''U1''), (''n'', SInt (- 200))]\<rparr>,
      Body = [byte 1, byte 2]\<rparr>"

text \<open>
  Claim C5. For every valid ProtoMsg \<open>m\<close>, decoding the encoding of \<open>m\<close> succeeds and
  yields \<open>m\<close>.
\<close>

theorem frame_codec_round_trip:
  "valid m \<Longrightarrow> decode (encode m) = Inr m"
  by (rule decode_encode)

theorem frame_codec_round_trip_witness:
  "valid hello \<and> decode (encode hello) = Inr hello"
proof -
  have v: "valid hello"
    by (simp add: valid_def hello_def valid_props_def valid_len_def)
  from frame_codec_round_trip [OF v] v show ?thesis
    by simp
qed

end
